theory Spec2Isabelle
  imports Main
begin

section \<open>The rule jsx-wrap-multilines\<close>

text \<open>
  A shallow embedding of \<^verbatim>\<open>lib/rules/jsx-wrap-multilines.js\<close>. The rule is a set of
  handlers, one per traversal event; each handler selects candidate nodes and passes them
  to \<^verbatim>\<open>check\<close>, which reports a multi-line JSX element that is not wrapped in
  parentheses, together with a fix that wraps it.
\<close>

subsection \<open>AST nodes and tokens\<close>

text \<open>A position \<^verbatim>\<open>{line, column}\<close> and a location \<^verbatim>\<open>{start, end}\<close> of a node.\<close>

record position =
  line :: nat
  column :: nat

record sourceLocation =
  start :: position
  end_p :: position

text \<open>
  An AST node as the rule reads it: the type tag, the range \<^verbatim>\<open>[start, end]\<close> of offsets,
  the location, and the child fields the handlers dereference. A child that is
  \<^verbatim>\<open>null\<close> or \<^verbatim>\<open>undefined\<close> is \<open>None\<close>.
\<close>

datatype node = Node
  (type: string)
  (range_n: "nat \<times> nat")
  (loc: sourceLocation)
  (init: "node option")
  (right: "node option")
  (argument: "node option")
  (body: "node option")
  (consequent: "node option")
  (alternate: "node option")
  (expression: "node option")
  (value_n: "node option")

text \<open>A token: its literal text \<^verbatim>\<open>value\<close> and its range.\<close>

record token =
  value_t :: string
  range_t :: "nat \<times> nat"

subsection \<open>The host's interfaces\<close>

text \<open>
  The object returned by \<^verbatim>\<open>context.getSourceCode()\<close>: the three lookups the rule calls.
  A lookup that finds no token returns \<^verbatim>\<open>null\<close>, here \<open>None\<close>.
\<close>

record sourceCode =
  getTokenBefore :: "node \<Rightarrow> token option"
  getTokenAfter :: "node \<Rightarrow> token option"
  getText :: "node \<Rightarrow> string"

text \<open>
  The rule context: \<^verbatim>\<open>context.options[0]\<close> (absent when the user gave no options
  object) and the source code object.
\<close>

record "context" =
  options :: "(string \<rightharpoonup> bool) option"
  getSourceCode :: sourceCode

text \<open>A replace-range edit, and the text-editing helper handed to a fix function.\<close>

record edit =
  range_e :: "nat \<times> nat"
  text_e :: string

record fixer =
  replaceText :: "node \<Rightarrow> string \<Rightarrow> edit"

text \<open>
  The descriptor passed to \<^verbatim>\<open>context.report\<close>. The host's descriptor has an optional
  \<^verbatim>\<open>fix\<close> property, a function from the fixer to an edit.
\<close>

record report =
  node_r :: node
  message :: string
  fix_r :: "(fixer \<Rightarrow> edit) option"

datatype error = TypeError

subsection \<open>Constants\<close>

definition DEFAULTS :: "string \<rightharpoonup> bool" where
  "DEFAULTS = map_of
     [(''declaration'', True),
      (''assignment'', True),
      (''return'', True),
      (''arrow'', True),
      (''condition'', False),
      (''logical'', False),
      (''prop'', False)]"

subsection \<open>Helper predicates\<close>

text \<open>
  JavaScript truthiness of a value that is a boolean or \<^verbatim>\<open>undefined\<close> (\<open>None\<close>).
\<close>

fun truthy :: "bool option \<Rightarrow> bool" where
  "truthy None = False"
| "truthy (Some b) = b"

text \<open>\<^verbatim>\<open>has(object, key)\<close>: the object has an own property of that name.\<close>

definition has :: "('k \<rightharpoonup> 'v) \<Rightarrow> 'k \<Rightarrow> bool" where
  "has object key = (object key \<noteq> None)"

definition isParenthesised :: "sourceCode \<Rightarrow> node \<Rightarrow> bool" where
  "isParenthesised sourceCode node =
     (let previousToken = getTokenBefore sourceCode node;
          nextToken = getTokenAfter sourceCode node
      in case previousToken of
           None \<Rightarrow> False
         | Some p \<Rightarrow>
             (case nextToken of
                None \<Rightarrow> False
              | Some q \<Rightarrow>
                  value_t p = ''('' \<and> snd (range_t p) \<le> fst (range_n node) \<and>
                  value_t q = '')'' \<and> fst (range_t q) \<ge> snd (range_n node)))"

definition isMultilines :: "node \<Rightarrow> bool" where
  "isMultilines node = (line (start (loc node)) \<noteq> line (end_p (loc node)))"

fun check :: "context \<Rightarrow> node option \<Rightarrow> report list" where
  "check context None = []"
| "check context (Some node) =
     (if type node \<noteq> ''JSXElement'' then []
      else if \<not> isParenthesised (getSourceCode context) node \<and> isMultilines node then
        [\<lparr>node_r = node,
          message = ''Missing parentheses around multilines JSX'',
          fix_r = Some (\<lambda>fixer.
            replaceText fixer node (''('' @ getText (getSourceCode context) node @ '')''))\<rparr>]
      else [])"

definition isEnabled :: "context \<Rightarrow> string \<Rightarrow> bool option" where
  "isEnabled context type' =
     (let userOptions = (case options context of Some u \<Rightarrow> u | None \<Rightarrow> Map.empty)
      in if has userOptions type' then userOptions type' else DEFAULTS type')"

subsection \<open>The handlers\<close>

text \<open>
  Each handler returns the reports it made, in order, or the \<^verbatim>\<open>TypeError\<close> raised by
  reading a property of \<^verbatim>\<open>null\<close> or \<^verbatim>\<open>undefined\<close>.
\<close>

definition VariableDeclarator :: "context \<Rightarrow> node \<Rightarrow> error + report list" where
  "VariableDeclarator context node =
     (if \<not> truthy (isEnabled context ''declaration'') then Inr []
      else case init node of
          None \<Rightarrow> Inr (check context (init node))
        | Some i \<Rightarrow>
            if \<not> truthy (isEnabled context ''condition'') \<and> type i = ''ConditionalExpression''
            then Inr (check context (consequent i) @ check context (alternate i))
            else Inr (check context (init node)))"

definition AssignmentExpression :: "context \<Rightarrow> node \<Rightarrow> error + report list" where
  "AssignmentExpression context node =
     (if \<not> truthy (isEnabled context ''assignment'') then Inr []
      else if \<not> truthy (isEnabled context ''condition'') then
        (case right node of
           None \<Rightarrow> Inl TypeError
         | Some r \<Rightarrow>
             if type r = ''ConditionalExpression''
             then Inr (check context (consequent r) @ check context (alternate r))
             else Inr (check context (right node)))
      else Inr (check context (right node)))"

definition ReturnStatement :: "context \<Rightarrow> node \<Rightarrow> error + report list" where
  "ReturnStatement context node =
     (if truthy (isEnabled context ''return'') then Inr (check context (argument node))
      else Inr [])"

definition ArrowFunctionExpression_exit :: "context \<Rightarrow> node \<Rightarrow> error + report list" where
  "ArrowFunctionExpression_exit context node =
     (let arrowBody = body node
      in if truthy (isEnabled context ''arrow'') then
           (case arrowBody of
              None \<Rightarrow> Inl TypeError
            | Some b \<Rightarrow>
                if type b \<noteq> ''BlockStatement'' then Inr (check context arrowBody) else Inr [])
         else Inr [])"

definition ConditionalExpression :: "context \<Rightarrow> node \<Rightarrow> error + report list" where
  "ConditionalExpression context node =
     (if truthy (isEnabled context ''condition'')
      then Inr (check context (consequent node) @ check context (alternate node))
      else Inr [])"

definition LogicalExpression :: "context \<Rightarrow> node \<Rightarrow> error + report list" where
  "LogicalExpression context node =
     (if truthy (isEnabled context ''logical'') then Inr (check context (right node))
      else Inr [])"

definition JSXAttribute :: "context \<Rightarrow> node \<Rightarrow> error + report list" where
  "JSXAttribute context node =
     (if truthy (isEnabled context ''prop'') then
        (case value_n node of
           None \<Rightarrow> Inr []
         | Some v \<Rightarrow>
             if type v = ''JSXExpressionContainer'' then Inr (check context (expression v))
             else Inr [])
      else Inr [])"

text \<open>The object \<^verbatim>\<open>create\<close> returns: the handlers, keyed by the event they listen to.\<close>

definition create :: "context \<Rightarrow> (string \<rightharpoonup> (node \<Rightarrow> error + report list))" where
  "create context = map_of
     [(''VariableDeclarator'', VariableDeclarator context),
      (''AssignmentExpression'', AssignmentExpression context),
      (''ReturnStatement'', ReturnStatement context),
      (''ArrowFunctionExpression:exit'', ArrowFunctionExpression_exit context),
      (''ConditionalExpression'', ConditionalExpression context),
      (''LogicalExpression'', LogicalExpression context),
      (''JSXAttribute'', JSXAttribute context)]"

subsection \<open>A host over a lexed source text\<close>

text \<open>
  Modelled from the spec: the host's source-text and token-query interface (sections 4.3
  and 6), which is not part of the rule's file. A source is a sequence of lexemes: tokens,
  and the trivia between them (white space and comments), which the token lookups skip.
  The source text is the concatenation of the lexemes, and a token's range is where its
  text lies in it.
\<close>

datatype lexeme = Tok string | Trivia string

fun text_l :: "lexeme \<Rightarrow> string" where
  "text_l (Tok s) = s"
| "text_l (Trivia s) = s"

definition text_of :: "lexeme list \<Rightarrow> string" where
  "text_of ls = concat (map text_l ls)"

fun tokens_from :: "nat \<Rightarrow> lexeme list \<Rightarrow> token list" where
  "tokens_from off [] = []"
| "tokens_from off (Tok s # ls) =
     \<lparr>value_t = s, range_t = (off, off + length s)\<rparr> # tokens_from (off + length s) ls"
| "tokens_from off (Trivia s # ls) = tokens_from (off + length s) ls"

text \<open>
  The token immediately preceding an offset is the one just before the first token that
  starts at or after the offset; the token immediately following an offset is that first
  token.
\<close>

definition tokenBefore :: "token list \<Rightarrow> nat \<Rightarrow> token option" where
  "tokenBefore ts off =
     (case takeWhile (\<lambda>t. fst (range_t t) < off) ts of
        [] \<Rightarrow> None
      | t # ts' \<Rightarrow> Some (last (t # ts')))"

definition tokenAfter :: "token list \<Rightarrow> nat \<Rightarrow> token option" where
  "tokenAfter ts off =
     (case dropWhile (\<lambda>t. fst (range_t t) < off) ts of
        [] \<Rightarrow> None
      | t # ts' \<Rightarrow> Some t)"

definition slice :: "string \<Rightarrow> nat \<Rightarrow> nat \<Rightarrow> string" where
  "slice text s e = take (e - s) (drop s text)"

definition sourceCodeOf :: "lexeme list \<Rightarrow> sourceCode" where
  "sourceCodeOf ls =
     \<lparr>getTokenBefore = (\<lambda>node. tokenBefore (tokens_from 0 ls) (fst (range_n node))),
      getTokenAfter = (\<lambda>node. tokenAfter (tokens_from 0 ls) (snd (range_n node))),
      getText = (\<lambda>node. slice (text_of ls) (fst (range_n node)) (snd (range_n node)))\<rparr>"

text \<open>
  Modelled from the spec: the host's text-editing helper and fix application (section 6).
  \<^verbatim>\<open>fixer.replaceText(node, text)\<close> is the edit that replaces the node's range by the
  text, and applying an edit splices its text into the source text in place of the range.
\<close>

definition ruleFixer :: fixer where
  "ruleFixer = \<lparr>replaceText = (\<lambda>node text. \<lparr>range_e = range_n node, text_e = text\<rparr>)\<rparr>"

definition applyFix :: "string \<Rightarrow> edit \<Rightarrow> string" where
  "applyFix text e = take (fst (range_e e)) text @ text_e e @ drop (snd (range_e e)) text"

text \<open>
  Modelled from the spec: the source after the host has applied the fix of a node whose
  text is the lexemes \<open>mid\<close>, between \<open>pre\<close> and \<open>post\<close>. The two parentheses the
  fix adds are tokens of their own, and every other lexeme is as before.
\<close>

definition fixedSource :: "lexeme list \<Rightarrow> lexeme list \<Rightarrow> lexeme list \<Rightarrow> lexeme list" where
  "fixedSource pre mid post = pre @ Tok ''('' # mid @ Tok '')'' # post"

subsection \<open>Well-formed event deliveries\<close>

text \<open>
  The host delivers to a handler a node of the handler's kind, as the parser builds it:
  the operands of an assignment, a conditional and a logical expression and the body of
  an arrow function are always present, while a declarator's initializer, a return
  statement's argument and an attribute's value may be absent.
\<close>

definition wellFormedEvent :: "string \<Rightarrow> node \<Rightarrow> bool" where
  "wellFormedEvent ev node =
     (if ev = ''VariableDeclarator'' then type node = ''VariableDeclarator''
      else if ev = ''AssignmentExpression'' then
        type node = ''AssignmentExpression'' \<and> right node \<noteq> None
      else if ev = ''ReturnStatement'' then type node = ''ReturnStatement''
      else if ev = ''ArrowFunctionExpression:exit'' then
        type node = ''ArrowFunctionExpression'' \<and> body node \<noteq> None
      else if ev = ''ConditionalExpression'' then
        type node = ''ConditionalExpression'' \<and> consequent node \<noteq> None \<and>
        alternate node \<noteq> None
      else if ev = ''LogicalExpression'' then
        type node = ''LogicalExpression'' \<and> right node \<noteq> None
      else if ev = ''JSXAttribute'' then type node = ''JSXAttribute''
      else False)"

subsection \<open>The context names and defaults, in the specification's words\<close>

definition contextNames :: "string list" where
  "contextNames =
     [''declaration'', ''assignment'', ''return'', ''arrow'', ''condition'', ''logical'',
      ''prop'']"

text \<open>
  The fixed defaults as the specification lists them: declaration, assignment, return
  and arrow are enabled; condition, logical and prop are disabled.
\<close>

definition specDefault :: "string \<Rightarrow> bool" where
  "specDefault name = (name \<in> {''declaration'', ''assignment'', ''return'', ''arrow''})"

subsection \<open>A sample source\<close>

text \<open>
  The source text \<^verbatim>\<open>var x = c ? <a\<close>, a line break, \<^verbatim>\<open>/> : <b/>\<close>, and the nodes of its
  declarator: the conditional initializer, its multi-line consequent and its one-line
  alternate.
\<close>

definition sampleSource :: "lexeme list" where
  "sampleSource =
     [Tok ''var'', Trivia '' '', Tok ''x'', Trivia '' '', Tok ''='', Trivia '' '',
      Tok ''c'', Trivia '' '', Tok ''?'', Trivia '' '',
      Tok ''<'', Tok ''a'', Trivia [CHR 0x0A], Tok ''/'', Tok ''>'',
      Trivia '' '', Tok '':'', Trivia '' '', Tok ''<'', Tok ''b'', Tok ''/'', Tok ''>'']"

definition leaf :: "string \<Rightarrow> nat \<times> nat \<Rightarrow> sourceLocation \<Rightarrow> node" where
  "leaf t r l = Node t r l None None None None None None None None"

definition at :: "nat \<Rightarrow> nat \<Rightarrow> nat \<Rightarrow> nat \<Rightarrow> sourceLocation" where
  "at l c l' c' = \<lparr>start = \<lparr>line = l, column = c\<rparr>, end_p = \<lparr>line = l', column = c'\<rparr>\<rparr>"

definition jsxA :: node where
  "jsxA = leaf ''JSXElement'' (12, 17) (at 1 12 2 2)"

definition jsxB :: node where
  "jsxB = leaf ''JSXElement'' (20, 24) (at 2 5 2 9)"

definition condNode :: node where
  "condNode =
     Node ''ConditionalExpression'' (8, 24) (at 1 8 2 9)
       None None None None (Some jsxA) (Some jsxB) None None"

definition declNode :: node where
  "declNode =
     Node ''VariableDeclarator'' (4, 24) (at 1 4 2 9)
       (Some condNode) None None None None None None None"

definition assignNode :: node where
  "assignNode =
     Node ''AssignmentExpression'' (4, 24) (at 1 4 2 9)
       None (Some condNode) None None None None None None"

definition arrowNode :: node where
  "arrowNode =
     Node ''ArrowFunctionExpression'' (4, 17) (at 1 4 2 2)
       None None None (Some jsxA) None None None None"

definition varNode :: node where
  "varNode = leaf ''Identifier'' (0, 3) (at 1 0 1 3)"

definition sampleContext :: "(string \<rightharpoonup> bool) option \<Rightarrow> context" where
  "sampleContext opts = \<lparr>options = opts, getSourceCode = sourceCodeOf sampleSource\<rparr>"

text \<open>The sample source in three parts: before, inside and after the consequent.\<close>

definition samplePre :: "lexeme list" where
  "samplePre =
     [Tok ''var'', Trivia '' '', Tok ''x'', Trivia '' '', Tok ''='', Trivia '' '',
      Tok ''c'', Trivia '' '', Tok ''?'', Trivia '' '']"

definition sampleMid :: "lexeme list" where
  "sampleMid = [Tok ''<'', Tok ''a'', Trivia [CHR 0x0A], Tok ''/'', Tok ''>'']"

definition samplePost :: "lexeme list" where
  "samplePost =
     [Trivia '' '', Tok '':'', Trivia '' '', Tok ''<'', Tok ''b'', Tok ''/'', Tok ''>'']"

text \<open>
  The consequent and the context after its fix has been applied: the element has moved one
  character to the right, behind the opening parenthesis.
\<close>

definition jsxA_fixed :: node where
  "jsxA_fixed = leaf ''JSXElement'' (13, 18) (at 1 13 2 2)"

definition fixedContext :: "context" where
  "fixedContext =
     \<lparr>options = None, getSourceCode = sourceCodeOf (fixedSource samplePre sampleMid samplePost)\<rparr>"

text \<open>
  Nodes of other kinds over the consequent: a return statement with the element as its
  argument, and an arrow function whose body is a block.
\<close>

definition returnNode :: node where
  "returnNode =
     Node ''ReturnStatement'' (5, 17) (at 1 5 2 2)
       None None (Some jsxA) None None None None None"

definition blockNode :: node where
  "blockNode = leaf ''BlockStatement'' (6, 24) (at 1 6 2 9)"

definition arrowBlockNode :: node where
  "arrowBlockNode =
     Node ''ArrowFunctionExpression'' (0, 24) (at 1 0 2 9)
       None None None (Some blockNode) None None None None"


section \<open>Properties\<close>

subsection \<open>Facts about reports and the sample source\<close>

lemma check_report:
  "r \<in> set (check context cand) \<Longrightarrow>
     cand = Some (node_r r) \<and> type (node_r r) = ''JSXElement'' \<and>
     isMultilines (node_r r) \<and> \<not> isParenthesised (getSourceCode context) (node_r r) \<and>
     message r = ''Missing parentheses around multilines JSX'' \<and>
     fix_r r = Some (\<lambda>fixer. replaceText fixer (node_r r)
        (''('' @ getText (getSourceCode context) (node_r r) @ '')''))"
  by (cases cand) (auto split: if_splits)

lemma sample_tokens:
  "tokens_from 0 sampleSource =
     [\<lparr>value_t = ''var'', range_t = (0, 3)\<rparr>, \<lparr>value_t = ''x'', range_t = (4, 5)\<rparr>,
      \<lparr>value_t = ''='', range_t = (6, 7)\<rparr>, \<lparr>value_t = ''c'', range_t = (8, 9)\<rparr>,
      \<lparr>value_t = ''?'', range_t = (10, 11)\<rparr>, \<lparr>value_t = ''<'', range_t = (12, 13)\<rparr>,
      \<lparr>value_t = ''a'', range_t = (13, 14)\<rparr>, \<lparr>value_t = ''/'', range_t = (15, 16)\<rparr>,
      \<lparr>value_t = ''>'', range_t = (16, 17)\<rparr>, \<lparr>value_t = '':'', range_t = (18, 19)\<rparr>,
      \<lparr>value_t = ''<'', range_t = (20, 21)\<rparr>, \<lparr>value_t = ''b'', range_t = (21, 22)\<rparr>,
      \<lparr>value_t = ''/'', range_t = (22, 23)\<rparr>, \<lparr>value_t = ''>'', range_t = (23, 24)\<rparr>]"
  by (simp add: sampleSource_def)

lemma sample_text:
  "text_of sampleSource = ''var x = c ? <a'' @ [CHR 0x0A] @ ''/> : <b/>''"
  by (simp add: sampleSource_def text_of_def)

lemma jsxA_facts:
  "type jsxA = ''JSXElement''" "range_n jsxA = (12, 17)" "isMultilines jsxA"
  by (simp_all add: jsxA_def leaf_def at_def isMultilines_def)

lemma jsxB_facts:
  "type jsxB = ''JSXElement''" "range_n jsxB = (20, 24)" "\<not> isMultilines jsxB"
  by (simp_all add: jsxB_def leaf_def at_def isMultilines_def)

lemma jsxA_unwrapped: "\<not> isParenthesised (sourceCodeOf sampleSource) jsxA"
  by (simp add: isParenthesised_def sourceCodeOf_def sample_tokens jsxA_facts
      tokenBefore_def tokenAfter_def)

lemma sample_enabled:
  "isEnabled (sampleContext None) ''declaration'' = Some True"
  "isEnabled (sampleContext None) ''assignment'' = Some True"
  "isEnabled (sampleContext None) ''arrow'' = Some True"
  "isEnabled (sampleContext None) ''return'' = Some True"
  "isEnabled (sampleContext None) ''condition'' = Some False"
  by (simp_all add: isEnabled_def sampleContext_def has_def DEFAULTS_def)

lemma sample_host: "getSourceCode (sampleContext opts) = sourceCodeOf sampleSource"
  by (simp add: sampleContext_def)

lemma condNode_facts:
  "type condNode = ''ConditionalExpression''" "consequent condNode = Some jsxA"
  "alternate condNode = Some jsxB" "isMultilines condNode"
  by (simp_all add: condNode_def isMultilines_def at_def)

lemma condition_on:
  "isEnabled (sampleContext (Some [''condition'' \<mapsto> True])) ''condition'' = Some True"
  "isEnabled (sampleContext (Some [''condition'' \<mapsto> True])) ''declaration'' = Some True"
  by (auto simp: isEnabled_def sampleContext_def has_def DEFAULTS_def)

lemma condNode_unwrapped: "\<not> isParenthesised (sourceCodeOf sampleSource) condNode"
  by (simp add: isParenthesised_def sourceCodeOf_def sample_tokens condNode_def
      tokenBefore_def tokenAfter_def)

lemma jsxA_flagged: "check (sampleContext None) (Some jsxA) \<noteq> []"
  using jsxA_facts jsxA_unwrapped by (simp add: sample_host)

lemma sample_split: "sampleSource = samplePre @ sampleMid @ samplePost"
  by (simp add: sampleSource_def samplePre_def sampleMid_def samplePost_def)

lemma sample_declarator_reports:
  "VariableDeclarator (sampleContext None) declNode = Inr (check (sampleContext None) (Some jsxA))"
proof -
  have "check (sampleContext None) (Some jsxB) = []"
    using jsxB_facts by simp
  then show ?thesis
    by (simp add: VariableDeclarator_def sample_enabled declNode_def condNode_facts
        del: check.simps)
qed

subsection \<open>Facts about the handlers\<close>

lemma sample_create:
  "create context ''AssignmentExpression'' = Some (AssignmentExpression context)"
  "create context ''ArrowFunctionExpression:exit'' = Some (ArrowFunctionExpression_exit context)"
  "create context ''VariableDeclarator'' = Some (VariableDeclarator context)"
  by (simp_all add: create_def)

lemma create_cases:
  assumes "create context ev = Some handler"
  shows "ev = ''VariableDeclarator'' \<and> handler = VariableDeclarator context \<or>
         ev = ''AssignmentExpression'' \<and> handler = AssignmentExpression context \<or>
         ev = ''ReturnStatement'' \<and> handler = ReturnStatement context \<or>
         ev = ''ArrowFunctionExpression:exit'' \<and> handler = ArrowFunctionExpression_exit context \<or>
         ev = ''ConditionalExpression'' \<and> handler = ConditionalExpression context \<or>
         ev = ''LogicalExpression'' \<and> handler = LogicalExpression context \<or>
         ev = ''JSXAttribute'' \<and> handler = JSXAttribute context"
  using assms unfolding create_def
  by (simp split: if_splits)

lemma handler_reports:
  assumes "create context ev = Some handler" and "handler node = Inr reports"
    and "r \<in> set reports"
  shows "\<exists>cand. r \<in> set (check context cand)"
proof -
  have vd: "\<exists>cand. r \<in> set (check context cand)"
    if "VariableDeclarator context node = Inr reports"
    using that assms(3)
    by (auto simp: VariableDeclarator_def simp del: check.simps split: if_splits option.splits)
  have ae: "\<exists>cand. r \<in> set (check context cand)"
    if "AssignmentExpression context node = Inr reports"
    using that assms(3)
    by (auto simp: AssignmentExpression_def simp del: check.simps split: if_splits option.splits)
  have rs: "\<exists>cand. r \<in> set (check context cand)"
    if "ReturnStatement context node = Inr reports"
    using that assms(3)
    by (auto simp: ReturnStatement_def simp del: check.simps split: if_splits)
  have af: "\<exists>cand. r \<in> set (check context cand)"
    if "ArrowFunctionExpression_exit context node = Inr reports"
    using that assms(3)
    by (auto simp: ArrowFunctionExpression_exit_def Let_def simp del: check.simps split: if_splits option.splits)
  have ce: "\<exists>cand. r \<in> set (check context cand)"
    if "ConditionalExpression context node = Inr reports"
    using that assms(3)
    by (auto simp: ConditionalExpression_def simp del: check.simps split: if_splits)
  have le: "\<exists>cand. r \<in> set (check context cand)"
    if "LogicalExpression context node = Inr reports"
    using that assms(3)
    by (auto simp: LogicalExpression_def simp del: check.simps split: if_splits)
  have ja: "\<exists>cand. r \<in> set (check context cand)"
    if "JSXAttribute context node = Inr reports"
    using that assms(3)
    by (auto simp: JSXAttribute_def simp del: check.simps split: if_splits option.splits)
  show ?thesis
    using create_cases [OF assms(1)] assms(2) vd ae rs af ce le ja by blast
qed

lemma wellFormed_right: "wellFormedEvent ''AssignmentExpression'' node \<Longrightarrow> right node \<noteq> None"
  by (simp add: wellFormedEvent_def)

lemma wellFormed_body:
  "wellFormedEvent ''ArrowFunctionExpression:exit'' node \<Longrightarrow> body node \<noteq> None"
  by (simp add: wellFormedEvent_def)

lemma handler_returns:
  assumes "create context ev = Some handler" and "wellFormedEvent ev node"
  shows "\<exists>reports. handler node = Inr reports"
proof -
  have vd: "\<exists>reports. VariableDeclarator context node = Inr reports"
    by (simp add: VariableDeclarator_def split: option.splits)
  have ae: "\<exists>reports. AssignmentExpression context node = Inr reports"
    if "right node \<noteq> None"
    using that by (auto simp: AssignmentExpression_def)
  have rs: "\<exists>reports. ReturnStatement context node = Inr reports"
    by (simp add: ReturnStatement_def)
  have af: "\<exists>reports. ArrowFunctionExpression_exit context node = Inr reports"
    if "body node \<noteq> None"
    using that by (auto simp: ArrowFunctionExpression_exit_def Let_def)
  have ce: "\<exists>reports. ConditionalExpression context node = Inr reports"
    by (simp add: ConditionalExpression_def)
  have le: "\<exists>reports. LogicalExpression context node = Inr reports"
    by (simp add: LogicalExpression_def)
  have ja: "\<exists>reports. JSXAttribute context node = Inr reports"
    by (simp add: JSXAttribute_def split: option.splits)
  from create_cases [OF assms(1)] show ?thesis
  proof (elim disjE conjE)
    assume "ev = ''AssignmentExpression''" "handler = AssignmentExpression context"
    with assms(2) ae wellFormed_right show ?thesis by blast
  next
    assume "ev = ''ArrowFunctionExpression:exit''" "handler = ArrowFunctionExpression_exit context"
    with assms(2) af wellFormed_body show ?thesis by blast
  qed (simp_all only: vd rs ce le ja)
qed

lemma AssignmentExpression_absent_right:
  assumes "truthy (isEnabled context ''assignment'')"
    and "\<not> truthy (isEnabled context ''condition'')" and "right node = None"
  shows "AssignmentExpression context node = Inl TypeError"
  using assms by (simp add: AssignmentExpression_def)

lemma assignNode_wf: "wellFormedEvent ''AssignmentExpression'' assignNode"
  by (simp add: wellFormedEvent_def assignNode_def)

lemma DEFAULTS_names: "name \<in> set contextNames \<Longrightarrow> DEFAULTS name = Some (specDefault name)"
  by (auto simp: contextNames_def DEFAULTS_def specDefault_def)

subsection \<open>Facts about the host over a lexed source\<close>

lemma text_of_append: "text_of (xs @ ys) = text_of xs @ text_of ys"
  by (simp add: text_of_def)

lemma text_of_Cons: "text_of (l # ls) = text_l l @ text_of ls"
  by (simp add: text_of_def)

lemma tokens_from_append:
  "tokens_from off (xs @ ys) = tokens_from off xs @ tokens_from (off + length (text_of xs)) ys"
proof (induction xs arbitrary: off)
  case Nil
  then show ?case by (simp add: text_of_def)
next
  case (Cons l xs)
  then show ?case by (cases l) (simp_all add: text_of_Cons add.assoc)
qed

lemma tokens_from_start:
  "t \<in> set (tokens_from off xs) \<Longrightarrow>
     off \<le> fst (range_t t) \<and> fst (range_t t) \<le> off + length (text_of xs)"
proof (induction xs arbitrary: off)
  case Nil
  then show ?case by simp
next
  case (Cons l xs)
  show ?case
  proof (cases l)
    case (Tok s)
    with Cons.prems have "t = \<lparr>value_t = s, range_t = (off, off + length s)\<rparr> \<or>
        t \<in> set (tokens_from (off + length s) xs)"
      by simp
    then show ?thesis
      using Cons.IH [of "off + length s"] Tok by (auto simp: text_of_Cons)
  next
    case (Trivia s)
    with Cons.prems have "t \<in> set (tokens_from (off + length s) xs)" by simp
    then show ?thesis
      using Cons.IH [of "off + length s"] Trivia by (auto simp: text_of_Cons)
  qed
qed

lemma tokens_from_start_less:
  "Tok [] \<notin> set xs \<Longrightarrow> t \<in> set (tokens_from off xs) \<Longrightarrow>
     fst (range_t t) < off + length (text_of xs)"
proof (induction xs arbitrary: off)
  case Nil
  then show ?case by simp
next
  case (Cons l xs)
  show ?case
  proof (cases l)
    case (Tok s)
    with Cons.prems have s: "s \<noteq> []" and "Tok [] \<notin> set xs"
      and "t = \<lparr>value_t = s, range_t = (off, off + length s)\<rparr> \<or>
        t \<in> set (tokens_from (off + length s) xs)"
      by auto
    then show ?thesis
      using Cons.IH [of "off + length s"] Tok by (auto simp: text_of_Cons)
  next
    case (Trivia s)
    with Cons.prems have "Tok [] \<notin> set xs" and "t \<in> set (tokens_from (off + length s) xs)"
      by auto
    then show ?thesis
      using Cons.IH [of "off + length s"] Trivia by (auto simp: text_of_Cons)
  qed
qed

lemma tokens_of_fixedSource:
  "tokens_from 0 (fixedSource pre mid post) =
     tokens_from 0 pre @
     \<lparr>value_t = ''('', range_t = (length (text_of pre), length (text_of pre) + 1)\<rparr> #
     tokens_from (length (text_of pre) + 1) mid @
     \<lparr>value_t = '')'', range_t = (length (text_of pre) + length (text_of mid) + 1,
        length (text_of pre) + length (text_of mid) + 2)\<rparr> #
     tokens_from (length (text_of pre) + length (text_of mid) + 2) post"
  by (simp add: fixedSource_def tokens_from_append add.assoc)

lemma takeWhile_none: "(\<And>x. x \<in> set xs \<Longrightarrow> \<not> P x) \<Longrightarrow> takeWhile P xs = []"
  by (cases xs) auto

lemma tokenBefore_last:
  "takeWhile (\<lambda>t. fst (range_t t) < off) ts = xs @ [x] \<Longrightarrow> tokenBefore ts off = Some x"
  by (cases xs) (simp_all add: tokenBefore_def)

lemma tokenBefore_fixedSource:
  "tokenBefore (tokens_from 0 (fixedSource pre mid post)) (length (text_of pre) + 1) =
     Some \<lparr>value_t = ''('', range_t = (length (text_of pre), length (text_of pre) + 1)\<rparr>"
proof -
  let ?s = "length (text_of pre)"
  let ?P = "\<lambda>t. fst (range_t t) < ?s + 1"
  let ?lp = "\<lparr>value_t = ''('', range_t = (?s, ?s + 1)\<rparr>"
  let ?rp = "\<lparr>value_t = '')'', range_t = (?s + length (text_of mid) + 1,
        ?s + length (text_of mid) + 2)\<rparr>"
  let ?rest = "tokens_from (?s + 1) mid @ ?rp #
     tokens_from (?s + length (text_of mid) + 2) post"
  have pre: "?P t" if "t \<in> set (tokens_from 0 pre)" for t
    using tokens_from_start [OF that] by simp
  have rest: "\<not> ?P t" if "t \<in> set ?rest" for t
    using that tokens_from_start [of t "?s + 1" mid]
      tokens_from_start [of t "?s + length (text_of mid) + 2" post]
    by auto
  have "takeWhile ?P ?rest = []"
    using rest by (rule takeWhile_none)
  then have "takeWhile ?P (tokens_from 0 (fixedSource pre mid post)) = tokens_from 0 pre @ [?lp]"
    using pre by (simp add: tokens_of_fixedSource takeWhile_append2)
  then show ?thesis
    by (rule tokenBefore_last)
qed

lemma tokenAfter_fixedSource:
  assumes "Tok [] \<notin> set mid"
  shows "tokenAfter (tokens_from 0 (fixedSource pre mid post))
       (length (text_of pre) + length (text_of mid) + 1) =
     Some \<lparr>value_t = '')'', range_t = (length (text_of pre) + length (text_of mid) + 1,
        length (text_of pre) + length (text_of mid) + 2)\<rparr>"
proof -
  let ?s = "length (text_of pre)"
  let ?e = "?s + length (text_of mid)"
  let ?P = "\<lambda>t. fst (range_t t) < ?e + 1"
  let ?lp = "\<lparr>value_t = ''('', range_t = (?s, ?s + 1)\<rparr>"
  let ?rp = "\<lparr>value_t = '')'', range_t = (?e + 1, ?e + 2)\<rparr>"
  let ?front = "tokens_from 0 pre @ ?lp # tokens_from (?s + 1) mid"
  have front: "?P t" if "t \<in> set ?front" for t
    using that tokens_from_start [of t 0 pre]
      tokens_from_start_less [OF assms, of t "?s + 1"]
    by auto
  have "tokens_from 0 (fixedSource pre mid post) = ?front @ ?rp # tokens_from (?e + 2) post"
    by (simp add: tokens_of_fixedSource)
  then have "dropWhile ?P (tokens_from 0 (fixedSource pre mid post)) =
      ?rp # tokens_from (?e + 2) post"
    using front by (simp only: dropWhile_append2) simp
  then show ?thesis
    by (simp add: tokenAfter_def)
qed

lemma fixedSource_parenthesised:
  assumes "Tok [] \<notin> set mid"
    and "range_n node' =
      (length (text_of pre) + 1, length (text_of pre) + length (text_of mid) + 1)"
  shows "isParenthesised (sourceCodeOf (fixedSource pre mid post)) node'"
  using assms(2) tokenBefore_fixedSource [of pre mid post]
    tokenAfter_fixedSource [OF assms(1), of pre post]
  by (simp add: isParenthesised_def sourceCodeOf_def)

lemma getText_mid:
  assumes "range_n node = (length (text_of pre), length (text_of pre) + length (text_of mid))"
  shows "getText (sourceCodeOf (pre @ mid @ post)) node = text_of mid"
  using assms by (simp add: sourceCodeOf_def slice_def text_of_append)

lemma applyFix_fixedSource:
  "applyFix (text_of (pre @ mid @ post))
     \<lparr>range_e = (length (text_of pre), length (text_of pre) + length (text_of mid)),
      text_e = ''('' @ text_of mid @ '')''\<rparr> =
   text_of (fixedSource pre mid post)"
  by (simp add: applyFix_def fixedSource_def text_of_append text_of_Cons)

lemma slice_splice:
  assumes "s \<le> e"
  shows "take s t @ slice t s e @ drop e t = t"
proof -
  have "take (s + (e - s)) t = take s t @ take (e - s) (drop s t)"
    by (rule take_add)
  then have "take s t @ slice t s e = take e t"
    using assms by (simp add: slice_def)
  then have "(take s t @ slice t s e) @ drop e t = t"
    by simp
  then show ?thesis by simp
qed

lemma wrapped_length:
  assumes "s \<le> e" and "e \<le> length t"
  shows "length (take s t @ ''('' @ slice t s e @ '')'' @ drop e t) = length t + 2"
  using assms by (simp add: slice_def)

lemma applyFix_ruleFixer:
  assumes "getSourceCode context = sourceCodeOf ls" and "range_n node = (s, e)"
  shows "applyFix (text_of ls)
      (replaceText ruleFixer node (''('' @ getText (getSourceCode context) node @ '')'')) =
      take s (text_of ls) @ ''('' @ slice (text_of ls) s e @ '')'' @ drop e (text_of ls)"
  using assms by (simp add: applyFix_def ruleFixer_def sourceCodeOf_def)

subsection \<open>The multiline-unparenthesised predicate\<close>

text \<open>
  Claim C1. For a candidate that is a JSX element, \<^verbatim>\<open>check\<close> reports a violation if and
  only if the node is multi-line (its start line differs from its end line) and it is not
  parenthesised; it reports at most one; and a JSX element whose start and end lie on the
  same line is never reported, whatever the tokens around it.
\<close>

theorem check_flags_iff:
  assumes "type node = ''JSXElement''"
  shows "(check context (Some node) \<noteq> []) =
           (isMultilines node \<and> \<not> isParenthesised (getSourceCode context) node) \<and>
         length (check context (Some node)) \<le> 1 \<and>
         (line (start (loc node)) = line (end_p (loc node)) \<longrightarrow>
            check context (Some node) = [])"
  using assms by (simp add: isMultilines_def)

theorem check_flags_iff_witness:
  "type jsxA = ''JSXElement'' \<and> check (sampleContext None) (Some jsxA) \<noteq> [] \<and>
   type jsxB = ''JSXElement'' \<and> line (start (loc jsxB)) = line (end_p (loc jsxB)) \<and>
   check (sampleContext None) (Some jsxB) = []"
proof -
  have a: "type jsxA = ''JSXElement''" and b: "type jsxB = ''JSXElement''"
    by (rule jsxA_facts jsxB_facts)+
  have m: "isMultilines jsxA \<and> \<not> isParenthesised (getSourceCode (sampleContext None)) jsxA"
    using jsxA_facts(3) jsxA_unwrapped by (simp add: sampleContext_def)
  have l: "line (start (loc jsxB)) = line (end_p (loc jsxB))"
    using jsxB_facts(3) by (simp add: isMultilines_def)
  show ?thesis
    using a b m l check_flags_iff [OF a, of "sampleContext None"]
      check_flags_iff [OF b, of "sampleContext None"]
    by blast
qed

text \<open>
  Claim C2. A node is parenthesised if and only if both neighbour lookups return a token,
  the token before has text \<^verbatim>\<open>(\<close> and ends at or before the node's start offset, and
  the token after has text \<^verbatim>\<open>)\<close> and starts at or after the node's end offset. If
  either lookup finds no token, the node is not parenthesised.
\<close>

theorem isParenthesised_iff:
  "isParenthesised sourceCode node =
     (\<exists>p q. getTokenBefore sourceCode node = Some p \<and> getTokenAfter sourceCode node = Some q \<and>
        value_t p = ''('' \<and> snd (range_t p) \<le> fst (range_n node) \<and>
        value_t q = '')'' \<and> snd (range_n node) \<le> fst (range_t q)) \<and>
   (getTokenBefore sourceCode node = None \<or> getTokenAfter sourceCode node = None \<longrightarrow>
      \<not> isParenthesised sourceCode node)"
  by (auto simp: isParenthesised_def split: option.splits)

lemma varNode_first: "getTokenBefore (sourceCodeOf sampleSource) varNode = None"
  by (simp add: sourceCodeOf_def sample_tokens tokenBefore_def varNode_def leaf_def)

theorem isParenthesised_iff_witness:
  "getTokenBefore (sourceCodeOf sampleSource) varNode = None \<and>
   \<not> isParenthesised (sourceCodeOf sampleSource) varNode"
  using varNode_first isParenthesised_iff [of "sourceCodeOf sampleSource" varNode]
  by blast

subsection \<open>The configuration resolver\<close>

text \<open>
  Claim C3. For each of the seven context names, \<^verbatim>\<open>isEnabled\<close> returns the user's
  value verbatim when the options object has an entry for the name (an explicit
  \<open>False\<close> included), and the fixed default otherwise, also when there is no options
  object at all. The defaults are: declaration, assignment, return and arrow enabled;
  condition, logical and prop disabled.
\<close>

theorem isEnabled_resolves:
  assumes "name \<in> set contextNames"
  shows "(\<forall>u v. options context = Some u \<and> u name = Some v \<longrightarrow>
            isEnabled context name = Some v) \<and>
         (\<forall>u. options context = Some u \<and> u name = None \<longrightarrow>
            isEnabled context name = Some (specDefault name)) \<and>
         (options context = None \<longrightarrow> isEnabled context name = Some (specDefault name)) \<and>
         (\<forall>d. d \<in> set [''declaration'', ''assignment'', ''return'', ''arrow''] \<longrightarrow> specDefault d) \<and>
         (\<forall>d. d \<in> set [''condition'', ''logical'', ''prop''] \<longrightarrow> \<not> specDefault d)"
  using DEFAULTS_names [OF assms]
  by (auto simp: isEnabled_def has_def specDefault_def)

theorem isEnabled_resolves_witness:
  "''declaration'' \<in> set contextNames \<and>
   options (sampleContext (Some [''declaration'' \<mapsto> False])) = Some [''declaration'' \<mapsto> False] \<and>
   [''declaration'' \<mapsto> False] ''declaration'' = Some False \<and>
   isEnabled (sampleContext (Some [''declaration'' \<mapsto> False])) ''declaration'' = Some False \<and>
   options (sampleContext None) = None \<and>
   isEnabled (sampleContext None) ''declaration'' = Some (specDefault ''declaration'')"
proof -
  have n: "''declaration'' \<in> set contextNames" by (simp add: contextNames_def)
  have o: "options (sampleContext (Some [''declaration'' \<mapsto> False])) = Some [''declaration'' \<mapsto> False]"
    by (simp add: sampleContext_def)
  have e: "[''declaration'' \<mapsto> False] ''declaration'' = Some False" by simp
  have o': "options (sampleContext None) = None" by (simp add: sampleContext_def)
  show ?thesis
    using n o e o' isEnabled_resolves [OF n, of "sampleContext (Some [''declaration'' \<mapsto> False])"]
      isEnabled_resolves [OF n, of "sampleContext None"]
    by blast
qed

subsection \<open>The context classifier\<close>

text \<open>
  Claim C4. With declaration enabled and condition disabled, a declarator whose
  initializer is a conditional expression yields exactly the reports of checking the
  conditional's consequent and then its alternate, and none of them is about the
  conditional itself. The same holds for the right-hand side of an assignment when
  assignment is enabled and condition is disabled.
\<close>

theorem conditional_special_case:
  "(truthy (isEnabled context ''declaration'') \<and> \<not> truthy (isEnabled context ''condition'') \<and>
    init node = Some i \<and> type i = ''ConditionalExpression'' \<longrightarrow>
      VariableDeclarator context node =
        Inr (check context (consequent i) @ check context (alternate i)) \<and>
      (\<forall>r \<in> set (check context (consequent i) @ check context (alternate i)). node_r r \<noteq> i)) \<and>
   (truthy (isEnabled context ''assignment'') \<and> \<not> truthy (isEnabled context ''condition'') \<and>
    right node = Some i \<and> type i = ''ConditionalExpression'' \<longrightarrow>
      AssignmentExpression context node =
        Inr (check context (consequent i) @ check context (alternate i)) \<and>
      (\<forall>r \<in> set (check context (consequent i) @ check context (alternate i)). node_r r \<noteq> i))"
proof -
  have "node_r r \<noteq> i"
    if "type i = ''ConditionalExpression''" and "r \<in> set (check context c)" for r c
    using check_report [OF that(2)] that(1) by auto
  then show ?thesis
    by (auto simp: VariableDeclarator_def AssignmentExpression_def)
qed

theorem conditional_special_case_witness:
  "truthy (isEnabled (sampleContext None) ''declaration'') \<and>
   \<not> truthy (isEnabled (sampleContext None) ''condition'') \<and>
   init declNode = Some condNode \<and> type condNode = ''ConditionalExpression'' \<and>
   VariableDeclarator (sampleContext None) declNode =
     Inr (check (sampleContext None) (consequent condNode) @
          check (sampleContext None) (alternate condNode)) \<and>
   truthy (isEnabled (sampleContext None) ''assignment'') \<and>
   right assignNode = Some condNode \<and>
   AssignmentExpression (sampleContext None) assignNode =
     Inr (check (sampleContext None) (consequent condNode) @
          check (sampleContext None) (alternate condNode))"
proof -
  have h: "truthy (isEnabled (sampleContext None) ''declaration'')"
    "\<not> truthy (isEnabled (sampleContext None) ''condition'')"
    "truthy (isEnabled (sampleContext None) ''assignment'')"
    "init declNode = Some condNode" "right assignNode = Some condNode"
    "type condNode = ''ConditionalExpression''"
    by (simp_all add: sample_enabled declNode_def assignNode_def condNode_facts)
  show ?thesis
    using h conditional_special_case [of "sampleContext None" declNode condNode]
      conditional_special_case [of "sampleContext None" assignNode condNode]
    by blast
qed

text \<open>
  Claim C5, as stated, fails: with condition (and declaration) enabled, the declarator
  handler passes the conditional initializer as a whole to \<^verbatim>\<open>check\<close>, which reports
  JSX elements only. A multi-line, unwrapped conditional is therefore not reported.
\<close>

theorem conditional_whole_counterexample:
  "truthy (isEnabled (sampleContext (Some [''condition'' \<mapsto> True])) ''declaration'') \<and>
   truthy (isEnabled (sampleContext (Some [''condition'' \<mapsto> True])) ''condition'') \<and>
   init declNode = Some condNode \<and> type condNode = ''ConditionalExpression'' \<and>
   isMultilines condNode \<and>
   \<not> isParenthesised (getSourceCode (sampleContext (Some [''condition'' \<mapsto> True]))) condNode \<and>
   VariableDeclarator (sampleContext (Some [''condition'' \<mapsto> True])) declNode = Inr []"
  using condNode_unwrapped
  by (simp add: condition_on condNode_facts declNode_def VariableDeclarator_def sample_host)

text \<open>
  Claim C5, amended. With declaration and condition enabled, the declarator handler
  evaluates the conditional initializer as a whole, which yields no report because a
  conditional expression is not a JSX element; the consequent and the alternate are
  evaluated by the handler of the conditional expression itself.
\<close>

theorem conditional_whole_amended:
  assumes "truthy (isEnabled context ''declaration'')"
    and "truthy (isEnabled context ''condition'')"
    and "init node = Some i" and "type i = ''ConditionalExpression''"
  shows "VariableDeclarator context node = Inr (check context (Some i)) \<and>
         check context (Some i) = [] \<and>
         ConditionalExpression context i =
           Inr (check context (consequent i) @ check context (alternate i))"
  using assms by (simp add: VariableDeclarator_def ConditionalExpression_def)

theorem conditional_whole_amended_witness:
  "truthy (isEnabled (sampleContext (Some [''condition'' \<mapsto> True])) ''declaration'') \<and>
   truthy (isEnabled (sampleContext (Some [''condition'' \<mapsto> True])) ''condition'') \<and>
   init declNode = Some condNode \<and> type condNode = ''ConditionalExpression'' \<and>
   VariableDeclarator (sampleContext (Some [''condition'' \<mapsto> True])) declNode =
     Inr (check (sampleContext (Some [''condition'' \<mapsto> True])) (Some condNode)) \<and>
   ConditionalExpression (sampleContext (Some [''condition'' \<mapsto> True])) condNode =
     Inr (check (sampleContext (Some [''condition'' \<mapsto> True])) (consequent condNode) @
          check (sampleContext (Some [''condition'' \<mapsto> True])) (alternate condNode))"
proof -
  have h: "truthy (isEnabled (sampleContext (Some [''condition'' \<mapsto> True])) ''declaration'')"
    "truthy (isEnabled (sampleContext (Some [''condition'' \<mapsto> True])) ''condition'')"
    "init declNode = Some condNode" "type condNode = ''ConditionalExpression''"
    by (simp_all add: condition_on declNode_def condNode_facts)
  show ?thesis
    using h conditional_whole_amended [OF h] by blast
qed

text \<open>
  Claim C9. The arrow handler listens to the exit event of an arrow function. With arrow
  enabled it checks the body when the body is not a block statement and does nothing when
  it is. A return statement is handled by the return handler, which checks the argument
  when return is enabled and does nothing when it is disabled.
\<close>

theorem arrow_body_candidate:
  "create context ''ArrowFunctionExpression:exit'' = Some (ArrowFunctionExpression_exit context) \<and>
   create context ''ArrowFunctionExpression'' = None \<and>
   (truthy (isEnabled context ''arrow'') \<and> body node = Some b \<and> type b \<noteq> ''BlockStatement'' \<longrightarrow>
      ArrowFunctionExpression_exit context node = Inr (check context (Some b))) \<and>
   (truthy (isEnabled context ''arrow'') \<and> body node = Some b \<and> type b = ''BlockStatement'' \<longrightarrow>
      ArrowFunctionExpression_exit context node = Inr []) \<and>
   (truthy (isEnabled context ''return'') \<longrightarrow>
      ReturnStatement context ret = Inr (check context (argument ret))) \<and>
   (\<not> truthy (isEnabled context ''return'') \<longrightarrow> ReturnStatement context ret = Inr [])"
  by (simp add: create_def ArrowFunctionExpression_exit_def ReturnStatement_def Let_def)

theorem arrow_body_candidate_witness:
  "truthy (isEnabled (sampleContext None) ''arrow'') \<and>
   body arrowNode = Some jsxA \<and> type jsxA \<noteq> ''BlockStatement'' \<and>
   ArrowFunctionExpression_exit (sampleContext None) arrowNode =
     Inr (check (sampleContext None) (Some jsxA)) \<and>
   body arrowBlockNode = Some blockNode \<and> type blockNode = ''BlockStatement'' \<and>
   ArrowFunctionExpression_exit (sampleContext None) arrowBlockNode = Inr [] \<and>
   truthy (isEnabled (sampleContext None) ''return'') \<and>
   ReturnStatement (sampleContext None) returnNode =
     Inr (check (sampleContext None) (argument returnNode)) \<and>
   \<not> truthy (isEnabled (sampleContext (Some [''return'' \<mapsto> False])) ''return'') \<and>
   ReturnStatement (sampleContext (Some [''return'' \<mapsto> False])) returnNode = Inr []"
proof -
  have h: "truthy (isEnabled (sampleContext None) ''arrow'')"
    "body arrowNode = Some jsxA" "type jsxA \<noteq> ''BlockStatement''"
    "body arrowBlockNode = Some blockNode" "type blockNode = ''BlockStatement''"
    "truthy (isEnabled (sampleContext None) ''return'')"
    by (simp_all add: sample_enabled arrowNode_def jsxA_facts arrowBlockNode_def blockNode_def
        leaf_def)
  have d: "\<not> truthy (isEnabled (sampleContext (Some [''return'' \<mapsto> False])) ''return'')"
    by (auto simp: isEnabled_def sampleContext_def has_def)
  show ?thesis
    using h d arrow_body_candidate [of "sampleContext None" arrowNode jsxA returnNode]
      arrow_body_candidate [of "sampleContext None" arrowBlockNode blockNode returnNode]
      arrow_body_candidate [of "sampleContext (Some [''return'' \<mapsto> False])" arrowNode jsxA
        returnNode]
    by blast
qed

text \<open>
  Claim C8. An absent candidate and a candidate that is not a JSX element are skipped:
  \<^verbatim>\<open>check\<close> reports nothing and raises nothing. No handler raises on a well-formed
  event delivery. In particular the assignment handler, in the conditional special case,
  returns the reports of the two branches.
\<close>

theorem candidates_skipped_no_crash:
  "check context None = [] \<and>
   (type cand \<noteq> ''JSXElement'' \<longrightarrow> check context (Some cand) = []) \<and>
   (create context ev = Some handler \<and> wellFormedEvent ev node \<longrightarrow>
      (\<exists>reports. handler node = Inr reports)) \<and>
   (truthy (isEnabled context ''assignment'') \<and> \<not> truthy (isEnabled context ''condition'') \<and>
    right node = Some r \<and> type r = ''ConditionalExpression'' \<longrightarrow>
      AssignmentExpression context node =
        Inr (check context (consequent r) @ check context (alternate r)))"
  using handler_returns [of "context" ev handler node]
  by (simp add: AssignmentExpression_def)

theorem candidates_skipped_no_crash_witness:
  "type condNode \<noteq> ''JSXElement'' \<and> check (sampleContext None) (Some condNode) = [] \<and>
   create (sampleContext None) ''AssignmentExpression'' =
     Some (AssignmentExpression (sampleContext None)) \<and>
   wellFormedEvent ''AssignmentExpression'' assignNode \<and>
   (\<exists>reports. AssignmentExpression (sampleContext None) assignNode = Inr reports) \<and>
   truthy (isEnabled (sampleContext None) ''assignment'') \<and>
   \<not> truthy (isEnabled (sampleContext None) ''condition'') \<and>
   right assignNode = Some condNode \<and> type condNode = ''ConditionalExpression'' \<and>
   AssignmentExpression (sampleContext None) assignNode =
     Inr (check (sampleContext None) (consequent condNode) @
          check (sampleContext None) (alternate condNode))"
proof -
  have h: "type condNode \<noteq> ''JSXElement''"
    "create (sampleContext None) ''AssignmentExpression'' =
       Some (AssignmentExpression (sampleContext None))"
    "wellFormedEvent ''AssignmentExpression'' assignNode"
    "truthy (isEnabled (sampleContext None) ''assignment'')"
    "\<not> truthy (isEnabled (sampleContext None) ''condition'')"
    "right assignNode = Some condNode" "type condNode = ''ConditionalExpression''"
    by (simp_all add: condNode_facts sample_create assignNode_wf sample_enabled)
      (simp_all add: assignNode_def)
  show ?thesis
    using h candidates_skipped_no_crash [of "sampleContext None" condNode
        "''AssignmentExpression''" "AssignmentExpression (sampleContext None)" assignNode condNode]
    by blast
qed

text \<open>
  Claim C10. A report of \<^verbatim>\<open>check\<close> is about the candidate it was given. Every
  report a handler makes carries a fix and the message
  \<^verbatim>\<open>Missing parentheses around multilines JSX\<close>, and its node is a JSX element that is
  multi-line and not parenthesised: the node whose check produced the report.
\<close>

theorem reports_carry_fix:
  "(r \<in> set (check context cand) \<longrightarrow> cand = Some (node_r r)) \<and>
   (create context ev = Some handler \<and> handler node = Inr reports \<and> r \<in> set reports \<longrightarrow>
      fix_r r \<noteq> None \<and>
      message r = ''Missing parentheses around multilines JSX'' \<and>
      type (node_r r) = ''JSXElement'' \<and>
      isMultilines (node_r r) \<and> \<not> isParenthesised (getSourceCode context) (node_r r) \<and>
      r \<in> set (check context (Some (node_r r))))"
proof -
  have "fix_r r \<noteq> None \<and>
      message r = ''Missing parentheses around multilines JSX'' \<and>
      type (node_r r) = ''JSXElement'' \<and>
      isMultilines (node_r r) \<and> \<not> isParenthesised (getSourceCode context) (node_r r) \<and>
      r \<in> set (check context (Some (node_r r)))"
    if "create context ev = Some handler" "handler node = Inr reports" "r \<in> set reports"
  proof -
    from handler_reports [OF that] obtain c where c: "r \<in> set (check context c)" ..
    from check_report [OF c] c show ?thesis by simp
  qed
  moreover have "cand = Some (node_r r)" if "r \<in> set (check context cand)"
    using check_report [OF that] by simp
  ultimately show ?thesis by blast
qed

theorem reports_carry_fix_witness:
  "hd (check (sampleContext None) (Some jsxA)) \<in> set (check (sampleContext None) (Some jsxA)) \<and>
   create (sampleContext None) ''VariableDeclarator'' =
     Some (VariableDeclarator (sampleContext None)) \<and>
   VariableDeclarator (sampleContext None) declNode =
     Inr (check (sampleContext None) (Some jsxA)) \<and>
   fix_r (hd (check (sampleContext None) (Some jsxA))) \<noteq> None \<and>
   message (hd (check (sampleContext None) (Some jsxA))) =
     ''Missing parentheses around multilines JSX'' \<and>
   node_r (hd (check (sampleContext None) (Some jsxA))) = jsxA"
proof -
  let ?r = "hd (check (sampleContext None) (Some jsxA))"
  have h: "?r \<in> set (check (sampleContext None) (Some jsxA))"
    using jsxA_flagged by (rule hd_in_set)
  have c: "create (sampleContext None) ''VariableDeclarator'' =
     Some (VariableDeclarator (sampleContext None))"
    by (rule sample_create)
  show ?thesis
    using h c sample_declarator_reports
      reports_carry_fix [of ?r "sampleContext None" "Some jsxA" "''VariableDeclarator''"
        "VariableDeclarator (sampleContext None)" declNode
        "check (sampleContext None) (Some jsxA)"]
    by (metis option.inject)
qed

subsection \<open>The fix\<close>

text \<open>
  Claim C7. The fix of a report on a node is a single call of \<^verbatim>\<open>replaceText\<close> on
  that node, with the text \<^verbatim>\<open>(\<close>, the node's source text, \<^verbatim>\<open>)\<close>. With the host's
  fixer this is one edit over exactly the node's range. Applied to the source text it
  keeps the text before and after the range, puts the two parentheses around the node's
  text, and makes the text two characters longer.
\<close>

theorem fix_wraps_node:
  assumes "r \<in> set (check context (Some node))"
  shows "\<exists>f. fix_r r = Some f \<and>
      (\<forall>fixer. f fixer =
         replaceText fixer node (''('' @ getText (getSourceCode context) node @ '')'')) \<and>
      f ruleFixer =
        \<lparr>range_e = range_n node,
         text_e = ''('' @ getText (getSourceCode context) node @ '')''\<rparr> \<and>
      (\<forall>ls s e. getSourceCode context = sourceCodeOf ls \<and> range_n node = (s, e) \<and>
           s \<le> e \<and> e \<le> length (text_of ls) \<longrightarrow>
         applyFix (text_of ls) (f ruleFixer) =
           take s (text_of ls) @ ''('' @ slice (text_of ls) s e @ '')'' @ drop e (text_of ls) \<and>
         take s (text_of ls) @ slice (text_of ls) s e @ drop e (text_of ls) = text_of ls \<and>
         length (applyFix (text_of ls) (f ruleFixer)) = length (text_of ls) + 2)"
proof -
  let ?w = "''('' @ getText (getSourceCode context) node @ '')''"
  let ?f = "\<lambda>fixer. replaceText fixer node ?w"
  have n: "node_r r = node"
    using check_report [OF assms] by simp
  have f: "fix_r r = Some ?f"
    using check_report [OF assms] n by simp
  have e: "?f ruleFixer = \<lparr>range_e = range_n node, text_e = ?w\<rparr>"
    by (simp add: ruleFixer_def)
  have a: "applyFix (text_of ls) (?f ruleFixer) =
      take s (text_of ls) @ ''('' @ slice (text_of ls) s e @ '')'' @ drop e (text_of ls) \<and>
      take s (text_of ls) @ slice (text_of ls) s e @ drop e (text_of ls) = text_of ls \<and>
      length (applyFix (text_of ls) (?f ruleFixer)) = length (text_of ls) + 2"
    if "getSourceCode context = sourceCodeOf ls \<and> range_n node = (s, e) \<and>
        s \<le> e \<and> e \<le> length (text_of ls)" for ls s e
  proof -
    from that have h: "getSourceCode context = sourceCodeOf ls" "range_n node = (s, e)"
      "s \<le> e" "e \<le> length (text_of ls)"
      by blast+
    show ?thesis
      unfolding applyFix_ruleFixer [OF h(1) h(2)]
      using slice_splice [OF h(3)] wrapped_length [OF h(3) h(4)] by blast
  qed
  show ?thesis
  proof (intro exI [of _ ?f] conjI allI impI)
    show "fix_r r = Some ?f" by (rule f)
  qed (use e a in blast)+
qed

theorem fix_wraps_node_witness:
  "hd (check (sampleContext None) (Some jsxA)) \<in> set (check (sampleContext None) (Some jsxA)) \<and>
   (\<exists>f. fix_r (hd (check (sampleContext None) (Some jsxA))) = Some f \<and>
      f ruleFixer = \<lparr>range_e = (12, 17), text_e = ''(<a'' @ [CHR 0x0A] @ ''/>)''\<rparr> \<and>
      applyFix (text_of sampleSource) (f ruleFixer) =
        ''var x = c ? (<a'' @ [CHR 0x0A] @ ''/>) : <b/>'')"
proof -
  let ?r = "hd (check (sampleContext None) (Some jsxA))"
  have h: "?r \<in> set (check (sampleContext None) (Some jsxA))"
    using jsxA_flagged by (rule hd_in_set)
  have t: "getText (getSourceCode (sampleContext None)) jsxA = ''<a'' @ [CHR 0x0A] @ ''/>''"
    by (simp add: sample_host sourceCodeOf_def jsxA_facts sample_text slice_def)
  have g: "getSourceCode (sampleContext None) = sourceCodeOf sampleSource \<and>
      range_n jsxA = (12, 17) \<and> (12::nat) \<le> 17 \<and> 17 \<le> length (text_of sampleSource)"
    by (simp add: sample_host jsxA_facts sample_text)
  from fix_wraps_node [OF h] obtain f where f: "fix_r ?r = Some f"
    "f ruleFixer = \<lparr>range_e = range_n jsxA,
       text_e = ''('' @ getText (getSourceCode (sampleContext None)) jsxA @ '')''\<rparr>"
    "\<forall>ls s e. getSourceCode (sampleContext None) = sourceCodeOf ls \<and> range_n jsxA = (s, e) \<and>
           s \<le> e \<and> e \<le> length (text_of ls) \<longrightarrow>
         applyFix (text_of ls) (f ruleFixer) =
           take s (text_of ls) @ ''('' @ slice (text_of ls) s e @ '')'' @ drop e (text_of ls) \<and>
         take s (text_of ls) @ slice (text_of ls) s e @ drop e (text_of ls) = text_of ls \<and>
         length (applyFix (text_of ls) (f ruleFixer)) = length (text_of ls) + 2"
    by blast
  from f(3) g have "applyFix (text_of sampleSource) (f ruleFixer) =
      take 12 (text_of sampleSource) @ ''('' @ slice (text_of sampleSource) 12 17 @ '')'' @
      drop 17 (text_of sampleSource)"
    by blast
  then have "applyFix (text_of sampleSource) (f ruleFixer) =
      ''var x = c ? (<a'' @ [CHR 0x0A] @ ''/>) : <b/>''"
    by (simp add: sample_text slice_def)
  moreover have "f ruleFixer = \<lparr>range_e = (12, 17), text_e = ''(<a'' @ [CHR 0x0A] @ ''/>)''\<rparr>"
    using f(2) t by (simp add: jsxA_facts)
  ultimately show ?thesis using h f(1) by blast
qed

text \<open>
  Claim C6. The fix is idempotent. Let a reported node span the lexemes \<open>mid\<close> of
  the source \<open>pre @ mid @ post\<close>, with no empty token among them. Applying the report's
  fix to the text gives the text of \<open>fixedSource pre mid post\<close>; there, a node at the
  same position (one character further right) is parenthesised, and checking it reports
  nothing.
\<close>

theorem fix_idempotent:
  assumes "getSourceCode context = sourceCodeOf (pre @ mid @ post)"
    and "range_n node = (length (text_of pre), length (text_of pre) + length (text_of mid))"
    and "Tok [] \<notin> set mid"
    and "r \<in> set (check context (Some node))"
    and "fix_r r = Some f"
    and "getSourceCode context' = sourceCodeOf (fixedSource pre mid post)"
    and "range_n node' =
      (length (text_of pre) + 1, length (text_of pre) + length (text_of mid) + 1)"
  shows "applyFix (text_of (pre @ mid @ post)) (f ruleFixer) =
           text_of (fixedSource pre mid post) \<and>
         isParenthesised (getSourceCode context') node' \<and>
         check context' (Some node') = []"
proof -
  have "f = (\<lambda>fixer. replaceText fixer node
      (''('' @ getText (getSourceCode context) node @ '')''))"
    using check_report [OF assms(4)] assms(5) by auto
  then have "f ruleFixer = \<lparr>range_e = range_n node, text_e = ''('' @ text_of mid @ '')''\<rparr>"
    using getText_mid [OF assms(2), of post] assms(1) by (simp add: ruleFixer_def)
  then have "applyFix (text_of (pre @ mid @ post)) (f ruleFixer) =
      text_of (fixedSource pre mid post)"
    using applyFix_fixedSource [of pre mid post] assms(2) by simp
  moreover have "isParenthesised (getSourceCode context') node'"
    using fixedSource_parenthesised [OF assms(3) assms(7), of post] assms(6) by simp
  ultimately show ?thesis by simp
qed

theorem fix_idempotent_witness:
  "getSourceCode (sampleContext None) = sourceCodeOf (samplePre @ sampleMid @ samplePost) \<and>
   range_n jsxA = (length (text_of samplePre), length (text_of samplePre) + length (text_of sampleMid)) \<and>
   Tok [] \<notin> set sampleMid \<and>
   hd (check (sampleContext None) (Some jsxA)) \<in> set (check (sampleContext None) (Some jsxA)) \<and>
   getSourceCode fixedContext = sourceCodeOf (fixedSource samplePre sampleMid samplePost) \<and>
   range_n jsxA_fixed =
     (length (text_of samplePre) + 1, length (text_of samplePre) + length (text_of sampleMid) + 1) \<and>
   (\<exists>f. fix_r (hd (check (sampleContext None) (Some jsxA))) = Some f \<and>
      applyFix (text_of (samplePre @ sampleMid @ samplePost)) (f ruleFixer) =
        text_of (fixedSource samplePre sampleMid samplePost)) \<and>
   isParenthesised (getSourceCode fixedContext) jsxA_fixed \<and>
   check fixedContext (Some jsxA_fixed) = []"
proof -
  let ?r = "hd (check (sampleContext None) (Some jsxA))"
  have h1: "getSourceCode (sampleContext None) = sourceCodeOf (samplePre @ sampleMid @ samplePost)"
    by (simp add: sample_host sample_split)
  have h2: "range_n jsxA =
      (length (text_of samplePre), length (text_of samplePre) + length (text_of sampleMid))"
    by (simp add: jsxA_facts samplePre_def sampleMid_def text_of_def)
  have h3: "Tok [] \<notin> set sampleMid" by (simp add: sampleMid_def)
  have h4: "?r \<in> set (check (sampleContext None) (Some jsxA))"
    using jsxA_flagged by (rule hd_in_set)
  obtain f where h5: "fix_r ?r = Some f"
    using check_report [OF h4] by blast
  have h6: "getSourceCode fixedContext = sourceCodeOf (fixedSource samplePre sampleMid samplePost)"
    by (simp add: fixedContext_def)
  have h7: "range_n jsxA_fixed =
     (length (text_of samplePre) + 1, length (text_of samplePre) + length (text_of sampleMid) + 1)"
    by (simp add: jsxA_fixed_def leaf_def samplePre_def sampleMid_def text_of_def)
  show ?thesis
    using h1 h2 h3 h4 h5 h6 h7 fix_idempotent [OF h1 h2 h3 h4 h5 h6 h7] by blast
qed

end
